theory Spec2Isabelle
  imports Main "HOL-Library.Word"
begin

section \<open>Values of the Python program\<close>

text \<open>
  \<^verbatim>\<open>webserver.py\<close> works on two kinds of sequences: \<^verbatim>\<open>bytes\<close> (what the socket
  delivers, what a file read in mode \<^verbatim>\<open>'rb'\<close> returns) and \<^verbatim>\<open>str\<close> (Unicode text).
  \<^verbatim>\<open>len\<close> of a \<^verbatim>\<open>str\<close> counts code points, \<^verbatim>\<open>len\<close> of \<^verbatim>\<open>bytes\<close> counts bytes, so
  the two are kept apart: a byte is an 8-bit word, a \<^verbatim>\<open>str\<close> is a list of code points.
\<close>

type_synonym byte = "8 word"
type_synonym bytes = "byte list"
type_synonym ustr = "nat list"

text \<open>ASCII literals of the source, as \<^verbatim>\<open>str\<close> and as \<^verbatim>\<open>bytes\<close>.\<close>

definition ustr :: "string \<Rightarrow> ustr" where
  "ustr s = map of_char s"

definition ascii :: "string \<Rightarrow> bytes" where
  "ascii s = map of_char s"

definition crlf :: ustr where
  "crlf = [13, 10]"

definition crlf_bytes :: bytes where
  "crlf_bytes = [13, 10]"

text \<open>The exceptions the program can meet. All of them are subclasses of \<^verbatim>\<open>Exception\<close>.\<close>

datatype exn =
    UnicodeDecodeError
  | UnicodeEncodeError
  | ValueError
  | AttributeError
  | IndexError
  | FileNotFoundError
  | PermissionError
  | IsADirectoryError
  | NotADirectoryError
  | OSError

section \<open>UTF-8, as \<^verbatim>\<open>bytes.decode\<close> and \<^verbatim>\<open>str.encode\<close> implement it\<close>

definition is_cont :: "byte \<Rightarrow> bool" where
  "is_cont b = (0x80 \<le> b \<and> b \<le> 0xBF)"

text \<open>Length of the sequence a lead byte announces; 0 for a byte that cannot start one.\<close>

definition seq_len :: "byte \<Rightarrow> nat" where
  "seq_len b =
     (if b < 0x80 then 1
      else if b < 0xC2 then 0
      else if b < 0xE0 then 2
      else if b < 0xF0 then 3
      else if b < 0xF5 then 4
      else 0)"

text \<open>
  The second byte is restricted further for some lead bytes (no overlong forms, no
  surrogates, nothing above U+10FFFF).
\<close>

definition second_ok :: "byte \<Rightarrow> byte \<Rightarrow> bool" where
  "second_ok b0 b1 =
     (if b0 = 0xE0 then 0xA0 \<le> b1 \<and> b1 \<le> 0xBF
      else if b0 = 0xED then 0x80 \<le> b1 \<and> b1 \<le> 0x9F
      else if b0 = 0xF0 then 0x90 \<le> b1 \<and> b1 \<le> 0xBF
      else if b0 = 0xF4 then 0x80 \<le> b1 \<and> b1 \<le> 0x8F
      else is_cont b1)"

definition low6 :: "byte \<Rightarrow> nat" where
  "low6 b = unat b mod 64"

text \<open>
  One pass over the bytes. Every decoded code point is \<open>Some c\<close>; every ill-formed
  range is one \<open>None\<close>. An ill-formed range is the longest prefix of a well-formed
  sequence found at that position (at least one byte), which is how the decoder
  delimits the range it reports to its error handler.
\<close>

fun utf8_items :: "bytes \<Rightarrow> nat option list" where
  "utf8_items [] = []"
| "utf8_items (b0 # rest) =
     (if seq_len b0 = 1 then Some (unat b0) # utf8_items rest
      else if seq_len b0 = 0 then None # utf8_items rest
      else (case rest of
          [] \<Rightarrow> [None]
        | b1 # r1 \<Rightarrow>
            if \<not> second_ok b0 b1 then None # utf8_items rest
            else if seq_len b0 = 2
              then Some ((unat b0 mod 32) * 64 + low6 b1) # utf8_items r1
            else (case r1 of
                [] \<Rightarrow> [None]
              | b2 # r2 \<Rightarrow>
                  if \<not> is_cont b2 then None # utf8_items r1
                  else if seq_len b0 = 3
                    then Some ((unat b0 mod 16) * 4096 + low6 b1 * 64 + low6 b2)
                           # utf8_items r2
                  else (case r2 of
                      [] \<Rightarrow> [None]
                    | b3 # r3 \<Rightarrow>
                        if \<not> is_cont b3 then None # utf8_items r2
                        else Some ((unat b0 mod 8) * 262144 + low6 b1 * 4096
                                    + low6 b2 * 64 + low6 b3)
                               # utf8_items r3))))"

text \<open>\<^verbatim>\<open>data.decode('utf-8')\<close>: the strict handler raises at the first ill-formed range.\<close>

definition decode_utf8 :: "bytes \<Rightarrow> exn + ustr" where
  "decode_utf8 bs =
     (let items = utf8_items bs
      in if None \<in> set items then Inl UnicodeDecodeError else Inr (map the items))"

text \<open>\<^verbatim>\<open>data.decode('utf-8', 'replace')\<close>: every ill-formed range becomes U+FFFD.\<close>

definition decode_utf8_replace :: "bytes \<Rightarrow> ustr" where
  "decode_utf8_replace bs =
     map (\<lambda>item. case item of None \<Rightarrow> 0xFFFD | Some c \<Rightarrow> c) (utf8_items bs)"

text \<open>
  \<^verbatim>\<open>s.encode('utf-8')\<close>, one code point. Surrogates cannot be encoded; a number
  above U+10FFFF is not a character of a \<^verbatim>\<open>str\<close> at all and is refused as well.
\<close>

definition encode_char :: "nat \<Rightarrow> bytes option" where
  "encode_char c =
     (if c < 0x80 then Some [of_nat c]
      else if c < 0x800 then Some [of_nat (0xC0 + c div 64), of_nat (0x80 + c mod 64)]
      else if 0xD800 \<le> c \<and> c \<le> 0xDFFF then None
      else if c < 0x10000 then
        Some [of_nat (0xE0 + c div 4096), of_nat (0x80 + c div 64 mod 64),
              of_nat (0x80 + c mod 64)]
      else if c < 0x110000 then
        Some [of_nat (0xF0 + c div 262144), of_nat (0x80 + c div 4096 mod 64),
              of_nat (0x80 + c div 64 mod 64), of_nat (0x80 + c mod 64)]
      else None)"

fun encode_utf8 :: "ustr \<Rightarrow> exn + bytes" where
  "encode_utf8 [] = Inr []"
| "encode_utf8 (c # cs) =
     (case encode_char c of
        None \<Rightarrow> Inl UnicodeEncodeError
      | Some bs \<Rightarrow> (case encode_utf8 cs of Inl e \<Rightarrow> Inl e | Inr rest \<Rightarrow> Inr (bs @ rest)))"

section \<open>The \<^verbatim>\<open>str\<close> methods the program calls\<close>

text \<open>\<^verbatim>\<open>s.startswith(p)\<close>.\<close>

definition startswith :: "'a list \<Rightarrow> 'a list \<Rightarrow> bool" where
  "startswith s p = (take (length p) s = p)"

text \<open>
  \<^verbatim>\<open>c.isspace()\<close>: the characters \<^verbatim>\<open>str.strip()\<close> and \<^verbatim>\<open>str.split()\<close> (both
  without argument) treat as whitespace.
\<close>

definition isspace :: "nat \<Rightarrow> bool" where
  "isspace c =
     ((9 \<le> c \<and> c \<le> 13) \<or> (28 \<le> c \<and> c \<le> 32) \<or> c = 0x85 \<or> c = 0xA0
      \<or> c = 0x1680 \<or> (0x2000 \<le> c \<and> c \<le> 0x200A) \<or> c = 0x2028 \<or> c = 0x2029
      \<or> c = 0x202F \<or> c = 0x205F \<or> c = 0x3000)"

text \<open>\<^verbatim>\<open>s.strip()\<close>.\<close>

definition strip :: "ustr \<Rightarrow> ustr" where
  "strip s = rev (dropWhile isspace (rev (dropWhile isspace s)))"

text \<open>
  \<^verbatim>\<open>s.split()\<close>: the maximal runs of non-whitespace characters, in order. The second
  argument is the run being read.
\<close>

fun split_ws_from :: "ustr \<Rightarrow> ustr \<Rightarrow> ustr list" where
  "split_ws_from [] cur = (if cur = [] then [] else [cur])"
| "split_ws_from (c # cs) cur =
     (if isspace c then (if cur = [] then split_ws_from cs [] else cur # split_ws_from cs [])
      else split_ws_from cs (cur @ [c]))"

definition split_ws :: "ustr \<Rightarrow> ustr list" where
  "split_ws s = split_ws_from s []"

text \<open>
  \<^verbatim>\<open>s.split(c)\<close> for a separator of one character: always at least one field, the
  fields may be empty.
\<close>

fun split_on :: "'a \<Rightarrow> 'a list \<Rightarrow> 'a list list" where
  "split_on c [] = [[]]"
| "split_on c (x # xs) =
     (if x = c then [] # split_on c xs
      else (case split_on c xs of [] \<Rightarrow> [[x]] | f # fs \<Rightarrow> (x # f) # fs))"

text \<open>
  \<^verbatim>\<open>s.split(c)[0]\<close>: the text before the first \<open>c\<close>, all of \<open>s\<close> when there is none.
  The list \<^verbatim>\<open>split\<close> returns is never empty, so the index cannot fail.
\<close>

definition first_field :: "'a \<Rightarrow> 'a list \<Rightarrow> 'a list" where
  "first_field c s = (case split_on c s of [] \<Rightarrow> [] | f # _ \<Rightarrow> f)"

text \<open>\<^verbatim>\<open>s.find(sep)\<close>: the index of the first occurrence of \<open>sep\<close>, \<open>None\<close> for -1.\<close>

fun find_str :: "'a list \<Rightarrow> 'a list \<Rightarrow> nat option" where
  "find_str sep [] = (if sep = [] then Some 0 else None)"
| "find_str sep (c # cs) =
     (if startswith (c # cs) sep then Some 0 else map_option Suc (find_str sep cs))"

text \<open>\<^verbatim>\<open>s.split(sep, 1)\<close> for a non-empty separator string: one split at most.\<close>

definition split_once :: "'a list \<Rightarrow> 'a list \<Rightarrow> 'a list list" where
  "split_once sep s =
     (case find_str sep s of
        None \<Rightarrow> [s]
      | Some i \<Rightarrow> [take i s, drop (i + length sep) s])"

text \<open>\<^verbatim>\<open>sep.join(parts)\<close>.\<close>

fun join :: "'a list \<Rightarrow> 'a list list \<Rightarrow> 'a list" where
  "join sep [] = []"
| "join sep [p] = p"
| "join sep (p # q # ps) = p @ sep @ join sep (q # ps)"

text \<open>\<^verbatim>\<open>s.replace(a, b)\<close> for single characters.\<close>

definition replace_char :: "'a \<Rightarrow> 'a \<Rightarrow> 'a list \<Rightarrow> 'a list" where
  "replace_char a b s = map (\<lambda>c. if c = a then b else c) s"

text \<open>\<^verbatim>\<open>str(n)\<close> for an integer, as the f-strings of the source format numbers.\<close>

fun digits :: "nat \<Rightarrow> ustr" where
  "digits n = (if n < 10 then [48 + n] else digits (n div 10) @ [48 + n mod 10])"

definition str_int :: "int \<Rightarrow> ustr" where
  "str_int i = (if i < 0 then 45 # digits (nat (- i)) else digits (nat i))"

section \<open>Library functions the program imports\<close>

text \<open>
  \<^verbatim>\<open>urllib.parse.unquote\<close>, \<^verbatim>\<open>urllib.parse.parse_qs\<close> and \<^verbatim>\<open>os.path.normpath\<close>
  belong to the Python standard library, not to the repository. They are written out
  here after the library's own Python text (CPython 3.11, POSIX flavour of
  \<^verbatim>\<open>os.path\<close>), with the default arguments the program leaves in place.
\<close>

subsection \<open>\<^verbatim>\<open>urllib.parse\<close>\<close>

definition hexval :: "byte \<Rightarrow> nat option" where
  "hexval b =
     (if 0x30 \<le> b \<and> b \<le> 0x39 then Some (unat b - 0x30)
      else if 0x41 \<le> b \<and> b \<le> 0x46 then Some (unat b - 0x41 + 10)
      else if 0x61 \<le> b \<and> b \<le> 0x66 then Some (unat b - 0x61 + 10)
      else None)"

text \<open>
  One piece of \<^verbatim>\<open>string.split(b'%')[1:]\<close>: two hexadecimal digits give a byte,
  anything else keeps its percent sign.
\<close>

definition unhex_item :: "bytes \<Rightarrow> bytes" where
  "unhex_item item =
     (case item of
        h1 # h2 # rest \<Rightarrow>
          (case (hexval h1, hexval h2) of
             (Some a, Some b) \<Rightarrow> of_nat (16 * a + b) # rest
           | _ \<Rightarrow> 0x25 # item)
      | _ \<Rightarrow> 0x25 # item)"

definition unquote_to_bytes :: "bytes \<Rightarrow> bytes" where
  "unquote_to_bytes bs =
     (case split_on 0x25 bs of
        [] \<Rightarrow> bs
      | first # items \<Rightarrow> first @ concat (map unhex_item items))"

text \<open>
  What \<^verbatim>\<open>unquote\<close> does to one maximal run of ASCII characters: encode (the run
  is ASCII, so every character is its own byte), undo the escapes, decode with the
  \<^verbatim>\<open>'replace'\<close> handler.
\<close>

definition unquote_run :: "ustr \<Rightarrow> ustr" where
  "unquote_run run = decode_utf8_replace (unquote_to_bytes (map of_nat run))"

text \<open>
  \<^verbatim>\<open>unquote\<close> on a string with a percent sign: the maximal ASCII runs are unquoted,
  the characters between them are copied. The second argument is the ASCII run being
  read.
\<close>

fun unquote_from :: "ustr \<Rightarrow> ustr \<Rightarrow> ustr" where
  "unquote_from [] run = unquote_run run"
| "unquote_from (c # cs) run =
     (if c < 0x80 then unquote_from cs (run @ [c])
      else unquote_run run @ c # unquote_from cs [])"

definition unquote :: "ustr \<Rightarrow> ustr" where
  "unquote s = (if 0x25 \<notin> set s then s else unquote_from s [])"

definition unquote_plus :: "ustr \<Rightarrow> ustr" where
  "unquote_plus s = unquote (replace_char 0x2B 0x20 s)"

text \<open>\<^verbatim>\<open>name_value.partition('=')\<close>, without the middle component.\<close>

definition partition_eq :: "ustr \<Rightarrow> ustr \<times> ustr" where
  "partition_eq s =
     (case find_str [0x3D] s of
        None \<Rightarrow> (s, [])
      | Some i \<Rightarrow> (take i s, drop (Suc i) s))"

text \<open>
  \<^verbatim>\<open>parse_qsl(qs)\<close> with \<^verbatim>\<open>keep_blank_values=False\<close>, \<^verbatim>\<open>strict_parsing=False\<close>,
  \<^verbatim>\<open>separator='&'\<close>: empty fields and fields with an empty value are dropped.
\<close>

definition parse_qsl :: "ustr \<Rightarrow> (ustr \<times> ustr) list" where
  "parse_qsl qs =
     (if qs = [] then []
      else concat (map (\<lambda>name_value.
             if name_value = [] then []
             else (case partition_eq name_value of
                     (name, val) \<Rightarrow>
                       if val = [] then [] else [(unquote_plus name, unquote_plus val)]))
           (split_on 0x26 qs)))"

text \<open>
  A \<^verbatim>\<open>dict\<close> keeps its keys in insertion order, and the program iterates over it, so
  it is an association list with distinct keys. \<open>dict_add\<close> is the body of the loop of
  \<^verbatim>\<open>parse_qs\<close>: append to the list of a known name, insert a new name at the end.
\<close>

type_synonym form = "(ustr \<times> ustr list) list"

fun dict_add :: "form \<Rightarrow> ustr \<times> ustr \<Rightarrow> form" where
  "dict_add [] (name, val) = [(name, [val])]"
| "dict_add ((k, vs) # d) (name, val) =
     (if k = name then (k, vs @ [val]) # d else (k, vs) # dict_add d (name, val))"

definition parse_qs :: "ustr \<Rightarrow> form" where
  "parse_qs qs = foldl dict_add [] (parse_qsl qs)"

subsection \<open>\<^verbatim>\<open>os.path.normpath\<close>\<close>

definition initial_slashes :: "ustr \<Rightarrow> nat" where
  "initial_slashes path =
     (if startswith path [0x2F] then
        (if startswith path [0x2F, 0x2F] \<and> \<not> startswith path [0x2F, 0x2F, 0x2F] then 2 else 1)
      else 0)"

text \<open>The body of the loop over the components (\<open>part\<close> is the source's \<^verbatim>\<open>comp\<close>);
  \<open>new_comps\<close> is the list being built.\<close>

definition norm_step :: "nat \<Rightarrow> ustr list \<Rightarrow> ustr \<Rightarrow> ustr list" where
  "norm_step slashes new_comps part =
     (if part = [] \<or> part = ustr ''.'' then new_comps
      else if part \<noteq> ustr ''..'' \<or> (slashes = 0 \<and> new_comps = [])
              \<or> (new_comps \<noteq> [] \<and> last new_comps = ustr ''..'')
        then new_comps @ [part]
      else if new_comps \<noteq> [] then butlast new_comps
      else new_comps)"

definition normpath :: "ustr \<Rightarrow> ustr" where
  "normpath path =
     (if path = [] then ustr ''.''
      else let slashes = initial_slashes path;
               comps = foldl (norm_step slashes) [] (split_on 0x2F path);
               joined = replicate slashes 0x2F @ join [0x2F] comps
           in if joined = [] then ustr ''.'' else joined)"

section \<open>The server: \<^verbatim>\<open>webserver.py\<close>\<close>

text \<open>
  The world outside the handler: what \<^verbatim>\<open>open(file_path, 'rb')\<close> followed by
  \<^verbatim>\<open>file.read()\<close> gives for a path (the bytes, or the exception raised), and what
  \<^verbatim>\<open>mimetypes.guess_type(file_path)[0]\<close> answers (\<open>None\<close> for Python's \<^verbatim>\<open>None\<close>).
\<close>

record env =
  read_file :: "ustr \<Rightarrow> exn + bytes"
  guess_type :: "ustr \<Rightarrow> ustr option"

text \<open>
  The handlers return a \<^verbatim>\<open>str\<close> on some paths and \<^verbatim>\<open>bytes\<close> on another; the value
  carries its type, as it does in Python.
\<close>

datatype response = Text ustr | Raw bytes

text \<open>
  \<^verbatim>\<open>create_response(self, status_code, status_text, content="")\<close>. \<^verbatim>\<open>len(content)\<close> is
  the number of characters of the \<^verbatim>\<open>str\<close>.
\<close>

definition create_response :: "int \<Rightarrow> ustr \<Rightarrow> ustr \<Rightarrow> ustr" where
  "create_response status_code status_text content =
     (let headers =
            [ustr ''HTTP/1.1 '' @ str_int status_code @ ustr '' '' @ status_text,
             ustr ''Content-Type: text/plain'',
             ustr ''Content-Length: '' @ str_int (int (length content))]
      in join crlf headers @ crlf @ crlf @ content)"

text \<open>
  \<^verbatim>\<open>handle_get_request(self, path)\<close>. Exceptions other than \<^verbatim>\<open>FileNotFoundError\<close> and
  \<^verbatim>\<open>PermissionError\<close> leave the function (\<open>Inl\<close>).
\<close>

definition handle_get_request :: "env \<Rightarrow> ustr \<Rightarrow> exn + response" where
  "handle_get_request e path0 =
     (let path = (if path0 = ustr ''/'' then ustr ''/index.html'' else path0);
          file_path = ustr ''./www'' @ path
      in if \<not> startswith (normpath file_path) (ustr ''./www'')
         then Inr (Text (create_response 403 (ustr ''Forbidden'') []))
         else (case read_file e file_path of
             Inr content \<Rightarrow>
               (let mime_type =
                      (case guess_type e file_path of
                         None \<Rightarrow> ustr ''text/plain''
                       | Some t \<Rightarrow> if t = [] then ustr ''text/plain'' else t);
                    status = 200;
                    status_text = ustr ''OK'';
                    headers =
                      [ustr ''Content-Type: '' @ mime_type,
                       ustr ''Content-Length: '' @ str_int (int (length content))];
                    response =
                      ustr ''HTTP/1.1 '' @ str_int status @ ustr '' '' @ status_text @ crlf
                      @ join crlf headers @ crlf @ crlf
                in (case encode_utf8 response of
                      Inl x \<Rightarrow> Inl x
                    | Inr head \<Rightarrow> Inr (Raw (head @ content))))
           | Inl FileNotFoundError \<Rightarrow> Inr (Text (create_response 404 (ustr ''Not Found'') []))
           | Inl PermissionError \<Rightarrow> Inr (Text (create_response 403 (ustr ''Forbidden'') []))
           | Inl x \<Rightarrow> Inl x))"

text \<open>
  The loop of \<^verbatim>\<open>handle_post_request\<close> over \<^verbatim>\<open>form_data.items()\<close>; the second argument
  is \<^verbatim>\<open>response_content\<close>. \<^verbatim>\<open>value[0]\<close> raises \<^verbatim>\<open>IndexError\<close> on an empty list.
\<close>

fun form_lines :: "form \<Rightarrow> ustr \<Rightarrow> exn + ustr" where
  "form_lines [] response_content = Inr response_content"
| "form_lines ((key, vs) # items) response_content =
     (case vs of
        [] \<Rightarrow> Inl IndexError
      | v # _ \<Rightarrow> form_lines items (response_content @ key @ ustr '': '' @ v @ [10]))"

text \<open>
  The first statement of \<^verbatim>\<open>handle_post_request\<close>, \<^verbatim>\<open>request.split('\r\n\r\n', 1)[-1]\<close>:
  the list has one or two elements, \<^verbatim>\<open>[-1]\<close> is its last.
\<close>

definition post_body :: "ustr \<Rightarrow> ustr" where
  "post_body request = last (split_once (crlf @ crlf) request)"

text \<open>\<^verbatim>\<open>handle_post_request(self, request, path)\<close>.\<close>

definition handle_post_request :: "ustr \<Rightarrow> ustr \<Rightarrow> exn + ustr" where
  "handle_post_request request path =
     (let body = post_body request;
          form_data = parse_qs body
      in if path = ustr ''/submit'' then
           (case form_lines form_data (ustr ''Form submitted successfully!'' @ [10]) of
              Inl x \<Rightarrow> Inl x
            | Inr response_content \<Rightarrow>
                Inr (create_response 200 (ustr ''OK'') response_content))
         else Inr (create_response 404 (ustr ''Not Found'') []))"

text \<open>
  The \<^verbatim>\<open>try\<close> block of \<^verbatim>\<open>handle_client\<close>, from the bytes \<^verbatim>\<open>recv(1024)\<close> returned to
  the bytes handed to \<^verbatim>\<open>sendall\<close>. Unpacking \<^verbatim>\<open>method, path, _ = ...\<close> raises
  \<^verbatim>\<open>ValueError\<close> unless there are exactly three tokens; \<^verbatim>\<open>response.encode\<close> exists
  for a \<^verbatim>\<open>str\<close> only, on \<^verbatim>\<open>bytes\<close> the attribute lookup raises \<^verbatim>\<open>AttributeError\<close>.
\<close>

definition handle_client_try :: "env \<Rightarrow> bytes \<Rightarrow> exn + bytes" where
  "handle_client_try e data =
     (case decode_utf8 data of
        Inl x \<Rightarrow> Inl x
      | Inr request \<Rightarrow>
          (let request_line = strip (first_field 10 request)
           in (case split_ws request_line of
                 [method, raw_path, _] \<Rightarrow>
                   (let path = unquote (first_field 0x3F raw_path);
                        result =
                          (if method = ustr ''GET'' then handle_get_request e path
                           else if method = ustr ''POST'' then
                             (case handle_post_request request path of
                                Inl x \<Rightarrow> Inl x
                              | Inr s \<Rightarrow> Inr (Text s))
                           else Inr (Text (create_response 405 (ustr ''Method Not Allowed'') [])))
                    in (case result of
                          Inl x \<Rightarrow> Inl x
                        | Inr (Text s) \<Rightarrow> encode_utf8 s
                        | Inr (Raw b) \<Rightarrow> Inl AttributeError))
               | _ \<Rightarrow> Inl ValueError)))"

text \<open>
  What one connection ends with: the bytes written to the socket, if any; the
  exception the \<^verbatim>\<open>except Exception\<close> clause caught and printed, if any; whether the
  socket was closed.
\<close>

record outcome =
  sent :: "bytes option"
  logged :: "exn option"
  closed :: bool

text \<open>\<^verbatim>\<open>handle_client(self, client_socket)\<close>: \<^verbatim>\<open>try\<close>, \<^verbatim>\<open>except Exception\<close>, \<^verbatim>\<open>finally\<close>.\<close>

definition handle_client :: "env \<Rightarrow> bytes \<Rightarrow> outcome" where
  "handle_client e data =
     (case handle_client_try e data of
        Inl x \<Rightarrow> \<lparr>sent = None, logged = Some x, closed = True\<rparr>
      | Inr out \<Rightarrow> \<lparr>sent = Some out, logged = None, closed = True\<rparr>)"

text \<open>
  A small document root for the examples: \<^verbatim>\<open>www/index.html\<close> exists, and so does a
  file outside the root.
\<close>

definition www_env :: env where
  "www_env =
     \<lparr>read_file = (\<lambda>p.
         if p = ustr ''./www/index.html'' then Inr (ascii ''<h1>Welcome</h1>'')
         else if p = ustr ''./www/../../etc/passwd'' then Inr (ascii ''root:x:0:0'')
         else Inl FileNotFoundError),
      guess_type = (\<lambda>p. if p = ustr ''./www/index.html'' then Some (ustr ''text/html'') else None)\<rparr>"

section \<open>Notions of the specification\<close>

text \<open>
  The specification speaks of a normalized candidate path that stays within the static
  root: the root directory \<^verbatim>\<open>www\<close> itself, or a path below it.
\<close>

definition inside_root :: "ustr \<Rightarrow> bool" where
  "inside_root p = (p = ustr ''www'' \<or> startswith p (ustr ''www/''))"

text \<open>
  The specification's form fields: of the pairs of the body, in order, the first pair
  of every key (\<open>seen\<close> holds the keys met so far), and the line it asks for each.
\<close>

fun first_values :: "'k set \<Rightarrow> ('k \<times> 'v) list \<Rightarrow> ('k \<times> 'v) list" where
  "first_values seen [] = []"
| "first_values seen ((k, v) # ps) =
     (if k \<in> seen then first_values seen ps else (k, v) # first_values (insert k seen) ps)"

definition field_line :: "ustr \<times> ustr \<Rightarrow> ustr" where
  "field_line kv = fst kv @ ustr '': '' @ snd kv @ [10]"

text \<open>
  A client reading a response off the wire, after the format of the specification:
  the header block ends at the first blank line, the status code is the second field
  of the status line, \<^verbatim>\<open>Content-Length\<close> is a header line with a decimal number.
\<close>

fun parse_nat_from :: "nat \<Rightarrow> bytes \<Rightarrow> nat option" where
  "parse_nat_from n [] = Some n"
| "parse_nat_from n (b # bs) =
     (if 0x30 \<le> b \<and> b \<le> 0x39 then parse_nat_from (10 * n + (unat b - 0x30)) bs else None)"

definition parse_nat :: "bytes \<Rightarrow> nat option" where
  "parse_nat bs = (if bs = [] then None else parse_nat_from 0 bs)"

definition header_lines :: "bytes \<Rightarrow> bytes list" where
  "header_lines out =
     (case split_once (crlf_bytes @ crlf_bytes) out of
        [] \<Rightarrow> []
      | block # _ \<Rightarrow>
          map (\<lambda>l. if l \<noteq> [] \<and> last l = 13 then butlast l else l) (split_on 10 block))"

definition wire_body :: "bytes \<Rightarrow> bytes" where
  "wire_body out =
     (case split_once (crlf_bytes @ crlf_bytes) out of [_, b] \<Rightarrow> b | _ \<Rightarrow> [])"

definition reparse_status :: "bytes \<Rightarrow> nat option" where
  "reparse_status out =
     (case header_lines out of
        [] \<Rightarrow> None
      | status_line # _ \<Rightarrow>
          (case split_on 0x20 status_line of _ # code # _ \<Rightarrow> parse_nat code | _ \<Rightarrow> None))"

definition reparse_content_length :: "bytes \<Rightarrow> nat option" where
  "reparse_content_length out =
     (case filter (\<lambda>l. startswith l (ascii ''Content-Length: '')) (header_lines out) of
        [] \<Rightarrow> None
      | l # _ \<Rightarrow> parse_nat (drop 16 l))"

section \<open>The traversal check of \<^verbatim>\<open>handle_get_request\<close>\<close>

text \<open>
  \<^verbatim>\<open>normpath\<close> drops every \<^verbatim>\<open>.\<close> component, so its result never begins with
  \<^verbatim>\<open>./\<close>: the prefix test against \<^verbatim>\<open>./www\<close> fails for every path.
\<close>

lemma split_on_not_Nil: "split_on c s \<noteq> []"
  by (induction s) (auto split: list.splits)

lemma split_on_no_sep: "f \<in> set (split_on c s) \<Longrightarrow> c \<notin> set f"
  by (induction s arbitrary: f) (auto split: list.splits if_splits)

lemma plain_take2: "c \<noteq> [] \<Longrightarrow> c \<noteq> [46] \<Longrightarrow> (47::nat) \<notin> set c \<Longrightarrow> take 2 (c @ rest) \<noteq> [46, 47]"
proof (cases c)
  case Nil
  assume "c \<noteq> []" with Nil show ?thesis by simp
next
  case (Cons x xs)
  assume a: "c \<noteq> [46]" "(47::nat) \<notin> set c"
  show ?thesis
  proof (cases xs)
    case Nil
    with Cons a have "x \<noteq> 46" by simp
    with Cons Nil show ?thesis by (simp add: eval_nat_numeral)
  next
    case (Cons y ys)
    with \<open>c = x # xs\<close> a have "y \<noteq> 47" by auto
    with Cons \<open>c = x # xs\<close> show ?thesis by (simp add: eval_nat_numeral)
  qed
qed

lemma norm_step_plain:
  assumes "\<forall>x\<in>set acc. x \<noteq> [] \<and> x \<noteq> [46] \<and> 47 \<notin> set x" and "part \<in> set ps" and "\<forall>p\<in>set ps. 47 \<notin> set p"
  shows "\<forall>x\<in>set (norm_step n acc part). x \<noteq> [] \<and> x \<noteq> [46] \<and> 47 \<notin> set x"
proof -
  have dot: "ustr ''.'' = [46]" by (simp add: ustr_def)
  have sub: "set (butlast acc) \<subseteq> set acc" by (auto dest: in_set_butlastD)
  show ?thesis
    unfolding norm_step_def dot using assms sub by (simp split: if_splits) blast
qed

lemma foldl_norm_step_plain:
  "\<forall>x\<in>set acc. x \<noteq> [] \<and> x \<noteq> [46] \<and> 47 \<notin> set x \<Longrightarrow> \<forall>p\<in>set ps. 47 \<notin> set p
   \<Longrightarrow> \<forall>x\<in>set (foldl (norm_step n) acc ps). x \<noteq> [] \<and> x \<noteq> [46] \<and> 47 \<notin> set x"
proof (induction ps arbitrary: acc)
  case Nil
  then show ?case by simp
next
  case (Cons p ps)
  have "p \<in> set (p # ps)" by simp
  from norm_step_plain[OF Cons.prems(1) this Cons.prems(2)]
  have step: "\<forall>x\<in>set (norm_step n acc p). x \<noteq> [] \<and> x \<noteq> [46] \<and> 47 \<notin> set x" .
  have rest: "\<forall>q\<in>set ps. 47 \<notin> set q" using Cons.prems(2) by simp
  from Cons.IH[OF step rest] show ?case by simp
qed

lemma join_take2:
  assumes "comps \<noteq> []" and "\<forall>x\<in>set comps. x \<noteq> [] \<and> x \<noteq> [46] \<and> (47::nat) \<notin> set x"
  shows "take 2 (join [47] comps) \<noteq> [46, 47]"
proof (cases comps)
  case Nil
  with assms show ?thesis by simp
next
  case (Cons c cs)
  then have c: "c \<noteq> []" "c \<noteq> [46]" "47 \<notin> set c" using assms by auto
  show ?thesis
  proof (cases cs)
    case Nil
    with Cons plain_take2[OF c, of "[]"] show ?thesis by simp
  next
    case (Cons q qs)
    with \<open>comps = c # cs\<close> plain_take2[OF c, of "[47] @ join [47] (q # qs)"] show ?thesis by simp
  qed
qed

lemma join_not_Nil:
  assumes "comps \<noteq> []" and "\<forall>x\<in>set comps. x \<noteq> []"
  shows "join sep comps \<noteq> []"
proof (cases comps)
  case Nil
  with assms show ?thesis by simp
next
  case (Cons c cs)
  then have "c \<noteq> []" using assms by simp
  then show ?thesis using Cons by (cases cs) simp_all
qed

lemma normpath_unfold:
  "p \<noteq> [] \<Longrightarrow> normpath p =
     (if replicate (initial_slashes p) 47
           @ join [47] (foldl (norm_step (initial_slashes p)) [] (split_on 47 p)) = []
      then ustr ''.''
      else replicate (initial_slashes p) 47
           @ join [47] (foldl (norm_step (initial_slashes p)) [] (split_on 47 p)))"
  by (simp only: normpath_def Let_def if_False)

lemma normpath_take2: "take 2 (normpath p) \<noteq> [46, 47]"
proof (cases "p = []")
  case True
  then show ?thesis by (simp add: normpath_def ustr_def)
next
  case False
  define n where "n = initial_slashes p"
  define comps where "comps = foldl (norm_step n) [] (split_on 47 p)"
  have slash: "\<forall>q\<in>set (split_on 47 p). 47 \<notin> set q"
    using split_on_no_sep[of _ 47 p] by blast
  have plain: "\<forall>x\<in>set comps. x \<noteq> [] \<and> x \<noteq> [46] \<and> 47 \<notin> set x"
    unfolding comps_def by (rule foldl_norm_step_plain[OF _ slash]) simp
  have np: "normpath p =
      (if replicate n 47 @ join [47] comps = [] then ustr ''.'' else replicate n 47 @ join [47] comps)"
    unfolding n_def comps_def by (rule normpath_unfold[OF False])
  have dot: "ustr ''.'' = [46]" by (simp add: ustr_def)
  show ?thesis
  proof (cases n)
    case 0
    show ?thesis
    proof (cases "comps = []")
      case True
      with 0 np dot show ?thesis by simp
    next
      case False
      have "join [47] comps \<noteq> []"
        using join_not_Nil[OF False] plain by blast
      with 0 np join_take2[OF False plain] show ?thesis by simp
    qed
  next
    case (Suc m)
    with np show ?thesis by (simp add: eval_nat_numeral)
  qed
qed

lemma startswith_dot_www: "startswith s (ustr ''./www'') \<Longrightarrow> take 2 s = [46, 47]"
proof -
  assume "startswith s (ustr ''./www'')"
  then have "take 5 s = [46, 47, 119, 119, 119]" by (simp add: startswith_def ustr_def eval_nat_numeral)
  then have "take 2 (take 5 s) = take 2 [46, 47, 119, 119, 119]" by (rule arg_cong)
  then show ?thesis by (simp add: eval_nat_numeral)
qed

lemma traversal_check_fails: "\<not> startswith (normpath p) (ustr ''./www'')"
  using normpath_take2[of p] startswith_dot_www[of "normpath p"] by blast

lemma handle_get_request_forbidden:
  "handle_get_request e path = Inr (Text (create_response 403 (ustr ''Forbidden'') []))"
  by (simp add: handle_get_request_def Let_def traversal_check_fails)

section \<open>Evaluating the handler on concrete requests\<close>

lemmas eval_defs = ustr_def ascii_def crlf_def crlf_bytes_def
  decode_utf8_def decode_utf8_replace_def seq_len_def second_ok_def is_cont_def low6_def encode_char_def
  startswith_def isspace_def strip_def split_ws_def first_field_def split_once_def replace_char_def str_int_def
  hexval_def unhex_item_def unquote_to_bytes_def unquote_run_def unquote_def unquote_plus_def
  partition_eq_def parse_qsl_def parse_qs_def
  initial_slashes_def norm_step_def normpath_def
  create_response_def handle_get_request_def post_body_def handle_post_request_def
  handle_client_try_def handle_client_def www_env_def Let_def

lemma forbidden_text:
  "create_response 403 (ustr ''Forbidden'') [] =
     ustr ''HTTP/1.1 403 Forbidden'' @ crlf @ ustr ''Content-Type: text/plain'' @ crlf
     @ ustr ''Content-Length: 0'' @ crlf @ crlf"
  by (simp add: create_response_def str_int_def ustr_def crlf_def)

lemma method_not_allowed_bytes:
  "encode_utf8 (create_response 405 (ustr ''Method Not Allowed'') []) =
     Inr (ascii ''HTTP/1.1 405 Method Not Allowed'' @ crlf_bytes
          @ ascii ''Content-Type: text/plain'' @ crlf_bytes
          @ ascii ''Content-Length: 0'' @ crlf_bytes @ crlf_bytes)"
  by (simp add: create_response_def str_int_def ustr_def crlf_def ascii_def crlf_bytes_def
      encode_char_def)

lemma handle_client_try_parsed:
  assumes "decode_utf8 data = Inr request"
    and "split_ws (strip (first_field 10 request)) = [method, raw_path, version]"
  shows "handle_client_try e data =
     (case (if method = ustr ''GET'' then handle_get_request e (unquote (first_field 0x3F raw_path))
            else if method = ustr ''POST'' then
              (case handle_post_request request (unquote (first_field 0x3F raw_path)) of
                 Inl x \<Rightarrow> Inl x
               | Inr s \<Rightarrow> Inr (Text s))
            else Inr (Text (create_response 405 (ustr ''Method Not Allowed'') []))) of
        Inl x \<Rightarrow> Inl x
      | Inr (Text s) \<Rightarrow> encode_utf8 s
      | Inr (Raw b) \<Rightarrow> Inl AttributeError)"
  using assms by (simp add: handle_client_try_def Let_def)

lemma handle_client_try_tokens:
  assumes "decode_utf8 data = Inr request"
    and "length (split_ws (strip (first_field 10 request))) \<noteq> 3"
  shows "handle_client_try e data = Inl ValueError"
proof -
  define tokens where "tokens = split_ws (strip (first_field 10 request))"
  have "length tokens \<noteq> 3" using assms(2) by (simp add: tokens_def)
  then have "(case tokens of [method, raw_path, _] \<Rightarrow> f method raw_path | _ \<Rightarrow> Inl ValueError)
      = Inl ValueError" for f :: "ustr \<Rightarrow> ustr \<Rightarrow> exn + bytes"
    by (auto split: list.splits)
  then show ?thesis using assms(1) by (simp add: handle_client_try_def Let_def tokens_def)
qed

section \<open>Static files\<close>

text \<open>
  Claim C1 says that a GET request for an existing, readable file under the static root
  is answered with status 200, a \<^verbatim>\<open>Content-Length\<close> equal to the length of the body,
  and the file's bytes as body. The code does not do that: \<^verbatim>\<open>www/index.html\<close> exists in
  \<open>www_env\<close>, and the answer to \<^verbatim>\<open>GET /index.html\<close> is 403 Forbidden with an empty
  body, because the traversal check compares the normalized path with the
  un-normalized prefix \<^verbatim>\<open>./www\<close>.
\<close>
theorem existing_file_is_refused:
  "read_file www_env (ustr ''./www/index.html'') = Inr (ascii ''<h1>Welcome</h1>'')
   \<and> handle_client www_env (ascii ''GET /index.html HTTP/1.1'' @ crlf_bytes @ crlf_bytes) =
       \<lparr>sent = Some (ascii ''HTTP/1.1 403 Forbidden'' @ crlf_bytes
                     @ ascii ''Content-Type: text/plain'' @ crlf_bytes
                     @ ascii ''Content-Length: 0'' @ crlf_bytes @ crlf_bytes),
        logged = None, closed = True\<rparr>"
  by (simp add: eval_defs)

text \<open>
  Claim C3: for every GET path whose normalized candidate path lies outside the static
  root, the answer is 403 Forbidden, and its body is empty whatever the files hold:
  the response is the same fixed text in every environment \<open>e\<close>.
\<close>
theorem traversal_is_forbidden:
  assumes "\<not> inside_root (normpath (ustr ''./www'' @ path))"
  shows "handle_get_request e path =
     Inr (Text (ustr ''HTTP/1.1 403 Forbidden'' @ crlf @ ustr ''Content-Type: text/plain'' @ crlf
                @ ustr ''Content-Length: 0'' @ crlf @ crlf))"
  using handle_get_request_forbidden[of e path] by (simp only: forbidden_text)

theorem traversal_is_forbidden_witness:
  "\<not> inside_root (normpath (ustr ''./www'' @ ustr ''/../../etc/passwd''))
   \<and> read_file www_env (ustr ''./www'' @ ustr ''/../../etc/passwd'') = Inr (ascii ''root:x:0:0'')
   \<and> handle_get_request www_env (ustr ''/../../etc/passwd'') =
     Inr (Text (ustr ''HTTP/1.1 403 Forbidden'' @ crlf @ ustr ''Content-Type: text/plain'' @ crlf
                @ ustr ''Content-Length: 0'' @ crlf @ crlf))"
  using traversal_is_forbidden[of "ustr ''/../../etc/passwd''" www_env]
  by (simp add: inside_root_def ustr_def startswith_def normpath_def norm_step_def
      initial_slashes_def www_env_def Let_def)

text \<open>
  Claim C6: the response to a GET request for \<^verbatim>\<open>/\<close> is the response to a GET request for
  \<^verbatim>\<open>/index.html\<close>. It holds for \<^verbatim>\<open>handle_get_request\<close> by its first two lines, and for
  whole connections: two requests whose request lines are \<^verbatim>\<open>GET / ...\<close> and
  \<^verbatim>\<open>GET /index.html ...\<close> end in the same outcome.
\<close>
theorem root_is_index:
  "handle_get_request e (ustr ''/'') = handle_get_request e (ustr ''/index.html'')
   \<and> (decode_utf8 d1 = Inr r1
        \<and> split_ws (strip (first_field 10 r1)) = [ustr ''GET'', ustr ''/'', v1]
        \<and> decode_utf8 d2 = Inr r2
        \<and> split_ws (strip (first_field 10 r2)) = [ustr ''GET'', ustr ''/index.html'', v2]
      \<longrightarrow> handle_client e d1 = handle_client e d2)"
proof -
  have get: "handle_get_request e (ustr ''/'') = handle_get_request e (ustr ''/index.html'')"
    by (simp add: handle_get_request_def Let_def)
  have p1: "unquote (first_field 0x3F (ustr ''/'')) = ustr ''/''"
    by (simp add: unquote_def first_field_def ustr_def)
  have p2: "unquote (first_field 0x3F (ustr ''/index.html'')) = ustr ''/index.html''"
    by (simp add: unquote_def first_field_def ustr_def)
  show ?thesis
    using get by (auto simp: handle_client_def handle_client_try_parsed p1 p2)
qed

theorem root_is_index_witness:
  "decode_utf8 (ascii ''GET / HTTP/1.1'' @ crlf_bytes @ crlf_bytes)
     = Inr (ustr ''GET / HTTP/1.1'' @ crlf @ crlf)
   \<and> split_ws (strip (first_field 10 (ustr ''GET / HTTP/1.1'' @ crlf @ crlf)))
     = [ustr ''GET'', ustr ''/'', ustr ''HTTP/1.1'']
   \<and> decode_utf8 (ascii ''GET /index.html HTTP/1.0'' @ crlf_bytes @ crlf_bytes)
     = Inr (ustr ''GET /index.html HTTP/1.0'' @ crlf @ crlf)
   \<and> split_ws (strip (first_field 10 (ustr ''GET /index.html HTTP/1.0'' @ crlf @ crlf)))
     = [ustr ''GET'', ustr ''/index.html'', ustr ''HTTP/1.0'']
   \<and> handle_client www_env (ascii ''GET / HTTP/1.1'' @ crlf_bytes @ crlf_bytes)
     = handle_client www_env (ascii ''GET /index.html HTTP/1.0'' @ crlf_bytes @ crlf_bytes)"
  using root_is_index[where e = www_env
      and ?d1.0 = "ascii ''GET / HTTP/1.1'' @ crlf_bytes @ crlf_bytes"
      and ?r1.0 = "ustr ''GET / HTTP/1.1'' @ crlf @ crlf" and ?v1.0 = "ustr ''HTTP/1.1''"
      and ?d2.0 = "ascii ''GET /index.html HTTP/1.0'' @ crlf_bytes @ crlf_bytes"
      and ?r2.0 = "ustr ''GET /index.html HTTP/1.0'' @ crlf @ crlf" and ?v2.0 = "ustr ''HTTP/1.0''"]
  by (simp add: ustr_def ascii_def crlf_def crlf_bytes_def decode_utf8_def seq_len_def
      first_field_def strip_def isspace_def split_ws_def)

section \<open>Dispatch and failures in \<^verbatim>\<open>handle_client\<close>\<close>

text \<open>
  Claim C8: a request whose request line has three tokens and whose method is neither
  \<^verbatim>\<open>GET\<close> nor \<^verbatim>\<open>POST\<close> is answered with status 405 and reason
  \<^verbatim>\<open>Method Not Allowed\<close>; the bytes sent are exactly the ones below.
\<close>
theorem other_method_not_allowed:
  assumes "decode_utf8 data = Inr request"
    and "split_ws (strip (first_field 10 request)) = [method, raw_path, version]"
    and "method \<noteq> ustr ''GET''" and "method \<noteq> ustr ''POST''"
  shows "handle_client e data =
     \<lparr>sent = Some (ascii ''HTTP/1.1 405 Method Not Allowed'' @ crlf_bytes
                   @ ascii ''Content-Type: text/plain'' @ crlf_bytes
                   @ ascii ''Content-Length: 0'' @ crlf_bytes @ crlf_bytes),
      logged = None, closed = True\<rparr>"
  using assms(3,4)
  by (simp add: handle_client_def handle_client_try_parsed[OF assms(1,2)] method_not_allowed_bytes)

theorem other_method_not_allowed_witness:
  "decode_utf8 (ascii ''PUT /index.html HTTP/1.1'' @ crlf_bytes @ crlf_bytes)
     = Inr (ustr ''PUT /index.html HTTP/1.1'' @ crlf @ crlf)
   \<and> split_ws (strip (first_field 10 (ustr ''PUT /index.html HTTP/1.1'' @ crlf @ crlf)))
     = [ustr ''PUT'', ustr ''/index.html'', ustr ''HTTP/1.1'']
   \<and> ustr ''PUT'' \<noteq> ustr ''GET'' \<and> ustr ''PUT'' \<noteq> ustr ''POST''
   \<and> handle_client www_env (ascii ''PUT /index.html HTTP/1.1'' @ crlf_bytes @ crlf_bytes) =
     \<lparr>sent = Some (ascii ''HTTP/1.1 405 Method Not Allowed'' @ crlf_bytes
                   @ ascii ''Content-Type: text/plain'' @ crlf_bytes
                   @ ascii ''Content-Length: 0'' @ crlf_bytes @ crlf_bytes),
      logged = None, closed = True\<rparr>"
  using other_method_not_allowed[of
      "ascii ''PUT /index.html HTTP/1.1'' @ crlf_bytes @ crlf_bytes"
      "ustr ''PUT /index.html HTTP/1.1'' @ crlf @ crlf"
      "ustr ''PUT''" "ustr ''/index.html''" "ustr ''HTTP/1.1''" www_env]
  by (simp add: ustr_def ascii_def crlf_def crlf_bytes_def decode_utf8_def seq_len_def
      first_field_def strip_def isspace_def split_ws_def)

text \<open>
  Claim C7: when the bytes received cannot be decoded, or the request line does not
  split into exactly three tokens, the exception is caught and logged, nothing is
  sent, and the connection is closed. More generally the connection is closed in
  every case, and nothing is sent exactly when an exception was logged.
\<close>
theorem malformed_request_is_handled:
  "(decode_utf8 data = Inl err \<longrightarrow>
      handle_client e data = \<lparr>sent = None, logged = Some err, closed = True\<rparr>)
   \<and> (decode_utf8 data = Inr request
        \<and> length (split_ws (strip (first_field 10 request))) \<noteq> 3 \<longrightarrow>
      handle_client e data = \<lparr>sent = None, logged = Some ValueError, closed = True\<rparr>)
   \<and> closed (handle_client e data)
   \<and> (sent (handle_client e data) = None) = (logged (handle_client e data) \<noteq> None)"
proof -
  have a: "decode_utf8 data = Inl err \<longrightarrow>
      handle_client e data = \<lparr>sent = None, logged = Some err, closed = True\<rparr>"
    by (simp add: handle_client_def handle_client_try_def)
  have b: "decode_utf8 data = Inr request
        \<and> length (split_ws (strip (first_field 10 request))) \<noteq> 3 \<longrightarrow>
      handle_client e data = \<lparr>sent = None, logged = Some ValueError, closed = True\<rparr>"
    by (simp add: handle_client_def handle_client_try_tokens)
  have c: "closed (handle_client e data)"
    by (simp add: handle_client_def split: sum.splits)
  have d: "(sent (handle_client e data) = None) = (logged (handle_client e data) \<noteq> None)"
    by (simp add: handle_client_def split: sum.splits)
  from a b c d show ?thesis by blast
qed

theorem malformed_request_is_handled_witness:
  "decode_utf8 [0xFF, 0x41] = Inl UnicodeDecodeError
   \<and> handle_client www_env [0xFF, 0x41]
       = \<lparr>sent = None, logged = Some UnicodeDecodeError, closed = True\<rparr>
   \<and> decode_utf8 (ascii ''GET /index.html'' @ crlf_bytes @ crlf_bytes)
       = Inr (ustr ''GET /index.html'' @ crlf @ crlf)
   \<and> length (split_ws (strip (first_field 10 (ustr ''GET /index.html'' @ crlf @ crlf)))) \<noteq> 3
   \<and> handle_client www_env (ascii ''GET /index.html'' @ crlf_bytes @ crlf_bytes)
       = \<lparr>sent = None, logged = Some ValueError, closed = True\<rparr>"
  using malformed_request_is_handled[where e = www_env and data = "[0xFF, 0x41]"
      and err = UnicodeDecodeError]
    malformed_request_is_handled[where e = www_env
      and data = "ascii ''GET /index.html'' @ crlf_bytes @ crlf_bytes"
      and request = "ustr ''GET /index.html'' @ crlf @ crlf"]
  by (simp add: ustr_def ascii_def crlf_def crlf_bytes_def decode_utf8_def seq_len_def
      first_field_def strip_def isspace_def split_ws_def)

lemma handle_get_request_text:
  assumes "handle_get_request e path = Inr (Text s)"
  shows "s = create_response 403 (ustr ''Forbidden'') []
       \<or> s = create_response 404 (ustr ''Not Found'') []"
  using assms
  by (auto simp: handle_get_request_def Let_def split: if_splits sum.splits exn.splits)

lemma handle_post_request_text:
  assumes "handle_post_request request path = Inr s"
  shows "(\<exists>content. s = create_response 200 (ustr ''OK'') content)
       \<or> s = create_response 404 (ustr ''Not Found'') []"
  using assms
  by (auto simp: handle_post_request_def Let_def split: if_splits sum.splits)

lemma handle_client_try_Inr:
  assumes "handle_client_try e data = Inr out"
  shows "\<exists>request method raw_path version.
           decode_utf8 data = Inr request
         \<and> split_ws (strip (first_field 10 request)) = [method, raw_path, version]"
proof (cases "decode_utf8 data")
  case (Inl x)
  with assms show ?thesis by (simp add: handle_client_try_def)
next
  case (Inr request)
  have "length (split_ws (strip (first_field 10 request))) = 3"
  proof (rule ccontr)
    assume "length (split_ws (strip (first_field 10 request))) \<noteq> 3"
    from handle_client_try_tokens[OF Inr this, of e] assms show False by simp
  qed
  then obtain m p v where "split_ws (strip (first_field 10 request)) = [m, p, v]"
    by (auto simp: length_Suc_conv eval_nat_numeral)
  with Inr show ?thesis by blast
qed

text \<open>
  Claim C9: whenever the server sends a response, its status line carries one of the
  codes 200, 403, 404 and 405 (with the reasons below): the bytes sent are the encoding
  of \<open>create_response code reason content\<close> for one of these four pairs. The proof
  does not use the fact that every GET is refused: a file that was read leaves
  \<^verbatim>\<open>handle_get_request\<close> as \<^verbatim>\<open>bytes\<close>, and then nothing is sent at all.
\<close>
theorem status_codes_emitted:
  assumes "sent (handle_client e data) = Some out"
  shows "\<exists>code reason content.
           encode_utf8 (create_response code reason content) = Inr out
         \<and> (code, reason) \<in> {(200, ustr ''OK''), (403, ustr ''Forbidden''),
                               (404, ustr ''Not Found''), (405, ustr ''Method Not Allowed'')}"
proof -
  have run: "handle_client_try e data = Inr out"
    using assms by (simp add: handle_client_def split: sum.splits)
  from handle_client_try_Inr[OF run] obtain request m raw_path version where
    dec: "decode_utf8 data = Inr request" and
    tok: "split_ws (strip (first_field 10 request)) = [m, raw_path, version]"
    by blast
  define path where "path = unquote (first_field 0x3F raw_path)"
  note parsed = handle_client_try_parsed[OF dec tok, of e, folded path_def]
  show ?thesis
  proof (cases "m = ustr ''GET''")
    case True
    with parsed run obtain s where s: "handle_get_request e path = Inr (Text s)"
      and enc: "encode_utf8 s = Inr out"
      by (auto split: sum.splits response.splits)
    from handle_get_request_text[OF s] enc show ?thesis by auto
  next
    case False
    note not_get = False
    show ?thesis
    proof (cases "m = ustr ''POST''")
      case True
      with not_get parsed run obtain s where s: "handle_post_request request path = Inr s"
        and enc: "encode_utf8 s = Inr out"
        by (auto split: sum.splits response.splits)
      from handle_post_request_text[OF s] enc show ?thesis by auto
    next
      case False
      with not_get parsed run
      have "encode_utf8 (create_response 405 (ustr ''Method Not Allowed'') []) = Inr out"
        by simp
      then show ?thesis by auto
    qed
  qed
qed

theorem status_codes_emitted_witness:
  "sent (handle_client www_env (ascii ''POST /nowhere HTTP/1.1'' @ crlf_bytes @ crlf_bytes @ ascii ''a=b''))
     = Some (ascii ''HTTP/1.1 404 Not Found'' @ crlf_bytes
             @ ascii ''Content-Type: text/plain'' @ crlf_bytes
             @ ascii ''Content-Length: 0'' @ crlf_bytes @ crlf_bytes)
   \<and> (\<exists>code reason content.
         encode_utf8 (create_response code reason content)
           = Inr (ascii ''HTTP/1.1 404 Not Found'' @ crlf_bytes
                  @ ascii ''Content-Type: text/plain'' @ crlf_bytes
                  @ ascii ''Content-Length: 0'' @ crlf_bytes @ crlf_bytes)
       \<and> (code, reason) \<in> {(200, ustr ''OK''), (403, ustr ''Forbidden''),
                             (404, ustr ''Not Found''), (405, ustr ''Method Not Allowed'')})"
proof -
  have h: "sent (handle_client www_env
                  (ascii ''POST /nowhere HTTP/1.1'' @ crlf_bytes @ crlf_bytes @ ascii ''a=b''))
     = Some (ascii ''HTTP/1.1 404 Not Found'' @ crlf_bytes
             @ ascii ''Content-Type: text/plain'' @ crlf_bytes
             @ ascii ''Content-Length: 0'' @ crlf_bytes @ crlf_bytes)"
    by (simp add: eval_defs)
  from status_codes_emitted[OF h] h show ?thesis by blast
qed

section \<open>Form submissions\<close>

text \<open>
  \<^verbatim>\<open>parse_qs\<close> never stores an empty list of values, so \<^verbatim>\<open>value[0]\<close> in
  \<^verbatim>\<open>handle_post_request\<close> cannot fail, and the dict keeps its keys in the order of
  their first pair, each with the value of that pair in front.
\<close>

lemma dict_add_values:
  "\<forall>(k, vs)\<in>set d. vs \<noteq> [] \<Longrightarrow> \<forall>(k, vs)\<in>set (dict_add d (name, val)). vs \<noteq> []"
  by (induction d) (auto split: if_splits)

lemma dict_add_keys: "fst ` set (dict_add d (name, val)) = insert name (fst ` set d)"
proof (induction d)
  case Nil
  show ?case by simp
next
  case (Cons item d)
  obtain k vs where item: "item = (k, vs)" by (cases item)
  show ?case
  proof (cases "k = name")
    case True
    then show ?thesis by (auto simp: item)
  next
    case False
    with Cons.IH show ?thesis by (simp add: item insert_commute)
  qed
qed

lemma dict_add_firsts:
  "\<forall>(k, vs)\<in>set d. vs \<noteq> [] \<Longrightarrow>
   map (\<lambda>(k, vs). (k, hd vs)) (dict_add d (name, val)) =
     (if name \<in> fst ` set d then map (\<lambda>(k, vs). (k, hd vs)) d
      else map (\<lambda>(k, vs). (k, hd vs)) d @ [(name, val)])"
proof (induction d)
  case Nil
  show ?case by simp
next
  case (Cons item d)
  obtain k vs where item: "item = (k, vs)" by (cases item)
  have vs: "vs \<noteq> []" and rest: "\<forall>(k, vs)\<in>set d. vs \<noteq> []"
    using Cons.prems by (simp_all add: item)
  show ?case
  proof (cases "k = name")
    case True
    with vs show ?thesis by (simp add: item)
  next
    case False
    with Cons.IH[OF rest] show ?thesis by (simp add: item)
  qed
qed

lemma foldl_dict_add_values:
  "\<forall>(k, vs)\<in>set d. vs \<noteq> [] \<Longrightarrow> \<forall>(k, vs)\<in>set (foldl dict_add d ps). vs \<noteq> []"
proof (induction ps arbitrary: d)
  case Nil
  then show ?case by simp
next
  case (Cons p ps)
  obtain name val where p: "p = (name, val)" by (cases p)
  from Cons.IH[OF dict_add_values[OF Cons.prems, of name val]] p show ?case by simp
qed

lemma foldl_dict_add_firsts:
  "\<forall>(k, vs)\<in>set d. vs \<noteq> [] \<Longrightarrow>
   map (\<lambda>(k, vs). (k, hd vs)) (foldl dict_add d ps) =
     map (\<lambda>(k, vs). (k, hd vs)) d @ first_values (fst ` set d) ps"
proof (induction ps arbitrary: d)
  case Nil
  then show ?case by simp
next
  case (Cons p ps)
  obtain name val where p: "p = (name, val)" by (cases p)
  note step = Cons.IH[OF dict_add_values[OF Cons.prems, of name val]]
  show ?case
  proof (cases "name \<in> fst ` set d")
    case True
    then have "insert name (fst ` set d) = fst ` set d" by auto
    with step True show ?thesis
      by (simp add: p dict_add_firsts[OF Cons.prems] dict_add_keys)
  next
    case False
    with step show ?thesis
      by (simp add: p dict_add_firsts[OF Cons.prems] dict_add_keys)
  qed
qed

lemma parse_qs_values: "\<forall>(k, vs)\<in>set (parse_qs qs). vs \<noteq> []"
  unfolding parse_qs_def by (rule foldl_dict_add_values) simp

lemma parse_qs_firsts:
  "map (\<lambda>(k, vs). (k, hd vs)) (parse_qs qs) = first_values {} (parse_qsl qs)"
  unfolding parse_qs_def using foldl_dict_add_firsts[of "[]" "parse_qsl qs"] by simp

lemma form_lines_firsts:
  "\<forall>(k, vs)\<in>set d. vs \<noteq> [] \<Longrightarrow>
   form_lines d acc = Inr (acc @ concat (map field_line (map (\<lambda>(k, vs). (k, hd vs)) d)))"
proof (induction d arbitrary: acc)
  case Nil
  then show ?case by simp
next
  case (Cons item d)
  obtain key vs where item: "item = (key, vs)" by (cases item)
  with Cons.prems obtain v rest where vs: "vs = v # rest" by (cases vs) auto
  have "\<forall>(k, vs)\<in>set d. vs \<noteq> []" using Cons.prems by simp
  from Cons.IH[OF this] show ?case by (simp add: item vs field_line_def)
qed

lemma handle_post_request_submit:
  "handle_post_request request (ustr ''/submit'') =
     Inr (create_response 200 (ustr ''OK'')
            (ustr ''Form submitted successfully!'' @ [10]
             @ concat (map field_line (first_values {} (parse_qsl (post_body request))))))"
  by (simp add: handle_post_request_def Let_def form_lines_firsts[OF parse_qs_values]
      parse_qs_firsts)

lemma ada_pairs:
  "parse_qsl (ustr ''name=Ada&name=Lovelace'') =
     [(ustr ''name'', ustr ''Ada''), (ustr ''name'', ustr ''Lovelace'')]"
  by (simp add: eval_defs)

lemma ada_response:
  "encode_utf8 (create_response 200 (ustr ''OK'')
      (ustr ''Form submitted successfully!'' @ [10]
       @ concat (map field_line [(ustr ''name'', ustr ''Ada'')]))) =
     Inr (ascii ''HTTP/1.1 200 OK'' @ crlf_bytes
          @ ascii ''Content-Type: text/plain'' @ crlf_bytes
          @ ascii ''Content-Length: 39'' @ crlf_bytes @ crlf_bytes
          @ ascii ''Form submitted successfully!'' @ [10] @ ascii ''name: Ada'' @ [10])"
  by (simp add: create_response_def str_int_def ustr_def crlf_def ascii_def crlf_bytes_def
      encode_char_def field_line_def)

text \<open>
  Claim C5: a POST request to \<^verbatim>\<open>/submit\<close> is answered with 200 OK and a body made of the
  confirmation line followed by one line \<^verbatim>\<open>key: first-value\<close> for every form field, in
  the order in which the keys first occur in the body. With the body
  \<^verbatim>\<open>name=Ada&name=Lovelace\<close> the bytes sent are the confirmation line and the one line
  \<^verbatim>\<open>name: Ada\<close>; the second value of the repeated key is not echoed.
\<close>
theorem submit_echoes_first_values:
  "handle_post_request request (ustr ''/submit'') =
     Inr (create_response 200 (ustr ''OK'')
            (ustr ''Form submitted successfully!'' @ [10]
             @ concat (map field_line (first_values {} (parse_qsl (post_body request))))))
   \<and> (decode_utf8 data = Inr request
        \<and> split_ws (strip (first_field 10 request)) = [ustr ''POST'', raw_path, version]
        \<and> unquote (first_field 0x3F raw_path) = ustr ''/submit''
        \<and> post_body request = ustr ''name=Ada&name=Lovelace''
      \<longrightarrow> handle_client e data =
           \<lparr>sent = Some (ascii ''HTTP/1.1 200 OK'' @ crlf_bytes
                         @ ascii ''Content-Type: text/plain'' @ crlf_bytes
                         @ ascii ''Content-Length: 39'' @ crlf_bytes @ crlf_bytes
                         @ ascii ''Form submitted successfully!'' @ [10]
                         @ ascii ''name: Ada'' @ [10]),
             logged = None, closed = True\<rparr>)"
proof -
  have general: "handle_post_request request (ustr ''/submit'') =
     Inr (create_response 200 (ustr ''OK'')
            (ustr ''Form submitted successfully!'' @ [10]
             @ concat (map field_line (first_values {} (parse_qsl (post_body request))))))"
    by (rule handle_post_request_submit)
  have ada: "handle_client e data =
           \<lparr>sent = Some (ascii ''HTTP/1.1 200 OK'' @ crlf_bytes
                         @ ascii ''Content-Type: text/plain'' @ crlf_bytes
                         @ ascii ''Content-Length: 39'' @ crlf_bytes @ crlf_bytes
                         @ ascii ''Form submitted successfully!'' @ [10]
                         @ ascii ''name: Ada'' @ [10]),
             logged = None, closed = True\<rparr>"
    if dec: "decode_utf8 data = Inr request"
      and line: "split_ws (strip (first_field 10 request)) = [ustr ''POST'', raw_path, version]"
      and path: "unquote (first_field 0x3F raw_path) = ustr ''/submit''"
      and body: "post_body request = ustr ''name=Ada&name=Lovelace''"
  proof -
    have post: "ustr ''POST'' \<noteq> ustr ''GET''" by (simp add: ustr_def)
    have fields: "first_values {} (parse_qsl (post_body request)) = [(ustr ''name'', ustr ''Ada'')]"
      by (simp only: body ada_pairs) simp
    have step: "handle_client_try e data =
        encode_utf8 (create_response 200 (ustr ''OK'')
          (ustr ''Form submitted successfully!'' @ [10]
           @ concat (map field_line [(ustr ''name'', ustr ''Ada'')])))"
      by (simp add: handle_client_try_parsed[OF dec line] post path general fields)
    show ?thesis by (simp add: handle_client_def trans[OF step ada_response])
  qed
  from general ada show ?thesis by blast
qed

theorem submit_echoes_first_values_witness:
  "decode_utf8 (ascii ''POST /submit HTTP/1.1'' @ crlf_bytes @ ascii ''Host: a'' @ crlf_bytes
                @ crlf_bytes @ ascii ''name=Ada&name=Lovelace'')
     = Inr (ustr ''POST /submit HTTP/1.1'' @ crlf @ ustr ''Host: a'' @ crlf @ crlf
            @ ustr ''name=Ada&name=Lovelace'')
   \<and> split_ws (strip (first_field 10 (ustr ''POST /submit HTTP/1.1'' @ crlf @ ustr ''Host: a''
                  @ crlf @ crlf @ ustr ''name=Ada&name=Lovelace'')))
     = [ustr ''POST'', ustr ''/submit'', ustr ''HTTP/1.1'']
   \<and> unquote (first_field 0x3F (ustr ''/submit'')) = ustr ''/submit''
   \<and> post_body (ustr ''POST /submit HTTP/1.1'' @ crlf @ ustr ''Host: a'' @ crlf @ crlf
                 @ ustr ''name=Ada&name=Lovelace'') = ustr ''name=Ada&name=Lovelace''
   \<and> handle_client www_env
        (ascii ''POST /submit HTTP/1.1'' @ crlf_bytes @ ascii ''Host: a'' @ crlf_bytes
         @ crlf_bytes @ ascii ''name=Ada&name=Lovelace'') =
           \<lparr>sent = Some (ascii ''HTTP/1.1 200 OK'' @ crlf_bytes
                         @ ascii ''Content-Type: text/plain'' @ crlf_bytes
                         @ ascii ''Content-Length: 39'' @ crlf_bytes @ crlf_bytes
                         @ ascii ''Form submitted successfully!'' @ [10]
                         @ ascii ''name: Ada'' @ [10]),
             logged = None, closed = True\<rparr>"
  using submit_echoes_first_values[where e = www_env
      and data = "ascii ''POST /submit HTTP/1.1'' @ crlf_bytes @ ascii ''Host: a'' @ crlf_bytes
                  @ crlf_bytes @ ascii ''name=Ada&name=Lovelace''"
      and request = "ustr ''POST /submit HTTP/1.1'' @ crlf @ ustr ''Host: a'' @ crlf @ crlf
                     @ ustr ''name=Ada&name=Lovelace''"
      and raw_path = "ustr ''/submit''" and version = "ustr ''HTTP/1.1''"]
  by (simp add: ustr_def ascii_def crlf_def crlf_bytes_def decode_utf8_def seq_len_def
      first_field_def strip_def isspace_def split_ws_def unquote_def post_body_def
      split_once_def startswith_def)

text \<open>
  \<^verbatim>\<open>find\<close> returns an index exactly when the separator occurs, and the index splits the
  string around an occurrence.
\<close>
lemma find_str_Some:
  "find_str sep s = Some i \<Longrightarrow> s = take i s @ sep @ drop (i + length sep) s"
proof (induction s arbitrary: i)
  case Nil
  then show ?case by (simp split: if_splits)
next
  case (Cons c cs)
  show ?case
  proof (cases "startswith (c # cs) sep")
    case True
    with Cons.prems have i: "i = 0" by simp
    from True have "take (length sep) (c # cs) = sep" by (simp add: startswith_def)
    then have "c # cs = sep @ drop (length sep) (c # cs)"
      by (metis append_take_drop_id)
    with i show ?thesis by simp
  next
    case False
    with Cons.prems obtain j where j: "find_str sep cs = Some j" and i: "i = Suc j"
      by auto
    from Cons.IH[OF j] i show ?thesis by simp
  qed
qed

lemma find_str_append: "find_str sep (pre @ sep @ post) \<noteq> None"
proof (induction pre)
  case Nil
  have sw: "startswith (sep @ post) sep" by (simp add: startswith_def)
  show ?case
  proof (cases "sep @ post")
    case Nil
    then show ?thesis by simp
  next
    case (Cons a list)
    with sw have "startswith (a # list) sep" by simp
    then have "find_str sep (a # list) = Some 0" by simp
    with Cons show ?thesis by simp
  qed
next
  case (Cons c pre)
  then show ?case by simp
qed

lemma find_str_None:
  "find_str sep s = None \<longleftrightarrow> (\<nexists>pre post. s = pre @ sep @ post)"
proof
  assume "find_str sep s = None"
  then show "\<nexists>pre post. s = pre @ sep @ post" using find_str_append by blast
next
  assume none: "\<nexists>pre post. s = pre @ sep @ post"
  show "find_str sep s = None"
  proof (cases "find_str sep s")
    case None
    then show ?thesis .
  next
    case (Some i)
    from find_str_Some[OF Some] none show ?thesis by blast
  qed
qed

lemma post_body_no_separator:
  "(\<nexists>pre post. request = pre @ (crlf @ crlf) @ post) \<Longrightarrow> post_body request = request"
  by (simp only: post_body_def split_once_def find_str_None[symmetric]) simp

text \<open>
  Claim C10: when the request text of a POST request contains no blank-line separator
  \<^verbatim>\<open>\r\n\r\n\<close>, the body \<^verbatim>\<open>handle_post_request\<close> parses is the whole request text,
  request line and header lines included, and the answer to \<^verbatim>\<open>/submit\<close> echoes the
  fields parsed from that text; the body is not taken to be empty.
\<close>
theorem no_separator_request_is_body:
  assumes "\<nexists>pre post. request = pre @ (crlf @ crlf) @ post"
  shows "post_body request = request
     \<and> handle_post_request request (ustr ''/submit'') =
         Inr (create_response 200 (ustr ''OK'')
                (ustr ''Form submitted successfully!'' @ [10]
                 @ concat (map field_line (first_values {} (parse_qsl request)))))"
proof -
  have body: "post_body request = request"
    using assms by (rule post_body_no_separator)
  from handle_post_request_submit[of request] body show ?thesis by simp
qed

lemma no_separator_example:
  "find_str (crlf @ crlf) (ustr ''POST /submit HTTP/1.1'' @ crlf @ ustr ''Host: a=b'') = None"
  by (simp add: ustr_def crlf_def startswith_def)

lemma no_separator_pairs:
  "first_values {} (parse_qsl (ustr ''POST /submit HTTP/1.1'' @ crlf @ ustr ''Host: a=b'')) =
     [(ustr ''POST /submit HTTP/1.1'' @ crlf @ ustr ''Host: a'', ustr ''b'')]"
  by (simp add: eval_defs)

theorem no_separator_request_is_body_witness:
  "(\<nexists>pre post. ustr ''POST /submit HTTP/1.1'' @ crlf @ ustr ''Host: a=b''
        = pre @ (crlf @ crlf) @ post)
   \<and> post_body (ustr ''POST /submit HTTP/1.1'' @ crlf @ ustr ''Host: a=b'')
       = ustr ''POST /submit HTTP/1.1'' @ crlf @ ustr ''Host: a=b''
   \<and> handle_post_request (ustr ''POST /submit HTTP/1.1'' @ crlf @ ustr ''Host: a=b'')
         (ustr ''/submit'') =
       Inr (create_response 200 (ustr ''OK'')
              (ustr ''Form submitted successfully!'' @ [10]
               @ ustr ''POST /submit HTTP/1.1'' @ crlf @ ustr ''Host: a: b'' @ [10]))"
proof -
  have none: "\<nexists>pre post. ustr ''POST /submit HTTP/1.1'' @ crlf @ ustr ''Host: a=b''
        = pre @ (crlf @ crlf) @ post"
    by (rule iffD1[OF find_str_None no_separator_example])
  have line: "concat (map field_line
        [(ustr ''POST /submit HTTP/1.1'' @ crlf @ ustr ''Host: a'', ustr ''b'')])
      = ustr ''POST /submit HTTP/1.1'' @ crlf @ ustr ''Host: a: b'' @ [10]"
    by (simp add: field_line_def ustr_def)
  from no_separator_request_is_body[OF none] none show ?thesis
    by (simp only: no_separator_pairs line) simp
qed

section \<open>\<^verbatim>\<open>Content-Length\<close> and the length of the body\<close>

text \<open>
  Claim C2 says that every response carries a \<^verbatim>\<open>Content-Length\<close> equal to the number of
  bytes of its body. \<^verbatim>\<open>create_response\<close> writes \<^verbatim>\<open>len(content)\<close> of a \<^verbatim>\<open>str\<close>, the
  number of characters, and the body is encoded as UTF-8 afterwards. A form value with
  one two-byte character gives a response that announces 37 bytes and carries 38.
\<close>
theorem content_length_counts_characters:
  "handle_client www_env
     (ascii ''POST /submit HTTP/1.1'' @ crlf_bytes @ crlf_bytes @ ascii ''name='' @ [0xC3, 0xA9]) =
     \<lparr>sent = Some (ascii ''HTTP/1.1 200 OK'' @ crlf_bytes
                   @ ascii ''Content-Type: text/plain'' @ crlf_bytes
                   @ ascii ''Content-Length: 37'' @ crlf_bytes @ crlf_bytes
                   @ ascii ''Form submitted successfully!'' @ [10]
                   @ ascii ''name: '' @ [0xC3, 0xA9, 10]),
      logged = None, closed = True\<rparr>
   \<and> length (ascii ''Form submitted successfully!'' @ [10] @ ascii ''name: '' @ [0xC3, 0xA9, 10])
       = 38"
  by (simp add: eval_defs)

text \<open>
  Claim C4 says that re-parsing the header block of a serialized response gives back
  the status code and a \<^verbatim>\<open>Content-Length\<close> equal to the length of the serialized body.
  For the answer to a form whose value is the percent-encoded character
  \<^verbatim>\<open>%C3%A9\<close>, a client reads status 200 and \<^verbatim>\<open>Content-Length\<close> 37 from the header
  block, and 38 bytes of body follow the blank line.
\<close>
theorem round_trip_length_differs:
  "sent (handle_client www_env
     (ascii ''POST /submit HTTP/1.1'' @ crlf_bytes @ crlf_bytes @ ascii ''name=%C3%A9'')) =
     Some (ascii ''HTTP/1.1 200 OK'' @ crlf_bytes
           @ ascii ''Content-Type: text/plain'' @ crlf_bytes
           @ ascii ''Content-Length: 37'' @ crlf_bytes @ crlf_bytes
           @ ascii ''Form submitted successfully!'' @ [10]
           @ ascii ''name: '' @ [0xC3, 0xA9, 10])
   \<and> reparse_status (ascii ''HTTP/1.1 200 OK'' @ crlf_bytes
           @ ascii ''Content-Type: text/plain'' @ crlf_bytes
           @ ascii ''Content-Length: 37'' @ crlf_bytes @ crlf_bytes
           @ ascii ''Form submitted successfully!'' @ [10]
           @ ascii ''name: '' @ [0xC3, 0xA9, 10]) = Some 200
   \<and> reparse_content_length (ascii ''HTTP/1.1 200 OK'' @ crlf_bytes
           @ ascii ''Content-Type: text/plain'' @ crlf_bytes
           @ ascii ''Content-Length: 37'' @ crlf_bytes @ crlf_bytes
           @ ascii ''Form submitted successfully!'' @ [10]
           @ ascii ''name: '' @ [0xC3, 0xA9, 10]) = Some 37
   \<and> length (wire_body (ascii ''HTTP/1.1 200 OK'' @ crlf_bytes
           @ ascii ''Content-Type: text/plain'' @ crlf_bytes
           @ ascii ''Content-Length: 37'' @ crlf_bytes @ crlf_bytes
           @ ascii ''Form submitted successfully!'' @ [10]
           @ ascii ''name: '' @ [0xC3, 0xA9, 10])) = 38"
proof -
  have a: "sent (handle_client www_env
     (ascii ''POST /submit HTTP/1.1'' @ crlf_bytes @ crlf_bytes @ ascii ''name=%C3%A9'')) =
     Some (ascii ''HTTP/1.1 200 OK'' @ crlf_bytes
           @ ascii ''Content-Type: text/plain'' @ crlf_bytes
           @ ascii ''Content-Length: 37'' @ crlf_bytes @ crlf_bytes
           @ ascii ''Form submitted successfully!'' @ [10]
           @ ascii ''name: '' @ [0xC3, 0xA9, 10])"
    by (simp add: eval_defs)
  have b: "reparse_status (ascii ''HTTP/1.1 200 OK'' @ crlf_bytes
           @ ascii ''Content-Type: text/plain'' @ crlf_bytes
           @ ascii ''Content-Length: 37'' @ crlf_bytes @ crlf_bytes
           @ ascii ''Form submitted successfully!'' @ [10]
           @ ascii ''name: '' @ [0xC3, 0xA9, 10]) = Some 200"
    by (simp add: reparse_status_def header_lines_def parse_nat_def split_once_def
        startswith_def ascii_def crlf_bytes_def)
  have c: "reparse_content_length (ascii ''HTTP/1.1 200 OK'' @ crlf_bytes
           @ ascii ''Content-Type: text/plain'' @ crlf_bytes
           @ ascii ''Content-Length: 37'' @ crlf_bytes @ crlf_bytes
           @ ascii ''Form submitted successfully!'' @ [10]
           @ ascii ''name: '' @ [0xC3, 0xA9, 10]) = Some 37"
    by (simp add: reparse_content_length_def header_lines_def parse_nat_def split_once_def
        startswith_def ascii_def crlf_bytes_def)
  have d: "length (wire_body (ascii ''HTTP/1.1 200 OK'' @ crlf_bytes
           @ ascii ''Content-Type: text/plain'' @ crlf_bytes
           @ ascii ''Content-Length: 37'' @ crlf_bytes @ crlf_bytes
           @ ascii ''Form submitted successfully!'' @ [10]
           @ ascii ''name: '' @ [0xC3, 0xA9, 10])) = 38"
    by (simp add: wire_body_def split_once_def startswith_def ascii_def crlf_bytes_def)
  from a b c d show ?thesis by blast
qed

end
